theory Spec2Isabelle
  imports Main "HOL-Library.AList" "HOL-Library.Sublist"
begin

section \<open>The production-rate notebook\<close>

text \<open>
  The notebook computes CO production rates of comet C/2016 R2 for the rows of an
  observation table. All numerics live in external libraries (astropy, numpy, sbpy,
  pyradex); the notebook only sequences calls to them and moves their results through
  a handful of variables. The model below keeps exactly that: every library call is a
  value of the datatype \<open>call\<close> that records the function called and its arguments, the
  libraries are one function \<open>ext\<close> from a call to the warnings it emits and its outcome,
  and the notebook's variables are the fields of a state record. A log of the calls
  issued so far, each with its outcome, and the warnings raised so far are part of the
  state.

  Modelled are the cell that builds the Haser coma model and the cell with the
  production-rate loop. The cells before them (reading the table, building \<open>mol_data\<close>)
  provide the inputs \<open>co\<close> and \<open>mol_data\<close>. The numbers themselves are binary floating
  point inside the libraries and are not interpreted; for the same reason the
  partition-function cell of the spectroscopy notebook, \<^verbatim>\<open>10**(f(160., param[0]))\<close>, has
  no counterpart here.
\<close>

subsection \<open>Values\<close>

text \<open>
  Python values handed to and returned by the libraries (quantities, \<open>Time\<close>, \<open>Ephem\<close>
  and \<open>Haser\<close> objects, table cells) are of one type \<open>'v\<close> that the model does not look
  into. The \<open>Phys\<close> object \<open>mol_data\<close> is a table of named columns: an association list,
  where assigning a column replaces it in place or adds it at the end. The observation
  table \<open>co\<close> maps a column name to the cells of that column.
\<close>

type_synonym 'v phys = "(string \<times> 'v) list"

type_synonym 'v table = "string \<rightharpoonup> 'v list"

text \<open>
  What a statement can raise: the two errors of indexing the observation table, and
  whatever an external library raises (\<open>'e\<close>), carried as it is.
\<close>

datatype 'e exn = KeyError string | IndexError nat | Raised 'e

text \<open>
  The model parameters of the notebook that are numbers or quantities. Source:
  \<^verbatim>\<open>aper = 10 * u.m\<close>, \<^verbatim>\<open>b = 0.74\<close>, \<^verbatim>\<open>vgas = 0.5 * u.km / u.s\<close>,
  \<^verbatim>\<open>Q_estimate = 3.594*10**(28) / u.s\<close>.
\<close>

record 'v params =
  aper :: 'v
  b_antenna :: 'v
  vgas :: 'v
  Q_estimate :: 'v

definition target :: string where
  "target = ''C/2016 R2''"

subsection \<open>External calls\<close>

text \<open>
  One constructor for each call the two cells make, with the arguments as the source
  passes them:
  \<^item> \<open>photo_timescale m\<close>: \<^verbatim>\<open>photo_timescale('CO')\<close>
  \<^item> \<open>multiply x y\<close>: \<^verbatim>\<open>photo_timescale('CO') * vgas\<close>
  \<^item> \<open>Haser q v p\<close>: \<^verbatim>\<open>Haser(Q_estimate, vgas, parent)\<close>
  \<^item> \<open>NonLTE\<close>, \<open>LTE\<close>: \<^verbatim>\<open>NonLTE()\<close>, \<^verbatim>\<open>LTE()\<close>
  \<^item> \<open>Time c\<close>: \<^verbatim>\<open>Time(co['Time'][i], format='iso')\<close>
  \<^item> \<open>K_km_per_s c\<close>: \<^verbatim>\<open>co['T_B'][i] * u.K * u.km / u.s\<close>
  \<^item> \<open>jd t\<close>: \<^verbatim>\<open>time.jd\<close>
  \<^item> \<open>from_horizons tg e\<close>: \<^verbatim>\<open>Ephem.from_horizons(target, epochs=time.jd)\<close>
  \<^item> \<open>beta_factor md eph\<close>: \<^verbatim>\<open>beta_factor(mol_data, ephemobj)\<close>
  \<^item> \<open>cdensity_Bockelee l f md\<close>: \<^verbatim>\<open>lte.cdensity_Bockelee(integrated_flux, mol_data)\<close>
  \<^item> \<open>from_pyradex n f md\<close>: \<^verbatim>\<open>nonlte.from_pyradex(integrated_flux, mol_data)\<close>
  \<^item> \<open>total_number md a b\<close>: \<^verbatim>\<open>total_number(mol_data, aper, b)\<close>
  \<^item> \<open>from_Haser c md a\<close>: \<^verbatim>\<open>from_Haser(coma, mol_data, aper=aper)\<close>
  \<^item> \<open>np_log10 q\<close>: \<^verbatim>\<open>np.log10(Q.value)[0]\<close>

  The item assignment \<^verbatim>\<open>mol_data[k] = v\<close> is carried out by the \<open>Phys\<close> class and can
  raise (a value that does not fit the table): \<open>Phys_setitem md k v\<close> asks the libraries
  whether the assignment of \<open>v\<close> to column \<open>k\<close> of \<open>md\<close> goes through.
\<close>

datatype 'v call =
    photo_timescale string
  | multiply 'v 'v
  | Haser 'v 'v 'v
  | NonLTE
  | LTE
  | Time 'v
  | K_km_per_s 'v
  | jd 'v
  | from_horizons string 'v
  | beta_factor "'v phys" 'v
  | cdensity_Bockelee 'v 'v "'v phys"
  | from_pyradex 'v 'v "'v phys"
  | total_number "'v phys" 'v 'v
  | from_Haser 'v "'v phys" 'v
  | np_log10 'v
  | Phys_setitem "'v phys" string 'v

text \<open>Where a call is issued: before the loop, or in the loop body at index \<open>i\<close>.\<close>

datatype place = Before_loop | In_loop nat

datatype ('e, 'v) event =
  Event (place: place) (call: "'v call") (outcome: "'e + 'v")

subsection \<open>State and statements\<close>

text \<open>
  The variables the cells assign more than once or grow, the call log, and \<open>warned\<close>:
  the warnings that have left the cell, in the order they were raised. A statement
  takes the state and returns the state it leaves, with either the value it computed
  or the exception it raised; the assignments made before an exception stay made.
  The cells install no warning filter, catch no warning and wrap nothing in \<^verbatim>\<open>try\<close>,
  so a warning raised by a library is handed on as it is and an exception ends the
  statement it is raised in. What the interpreter prints of the warnings handed to it
  (by default the first of each kind and place, on the standard error stream) is not
  the cells' doing and is not modelled.
\<close>

record ('e, 'w, 'v) state =
  mol_data :: "'v phys"
  q_found_pyradex :: "'v list"
  q_pred_co :: "'v list option"
  trace :: "('e, 'v) event list"
  warned :: "'w list"

type_synonym ('e, 'w, 'v) libs = "'v call \<Rightarrow> 'w list \<times> ('e + 'v)"

type_synonym ('e, 'w, 'v, 'a) stmt =
  "('e, 'w, 'v) state \<Rightarrow> ('e exn + 'a) \<times> ('e, 'w, 'v) state"

definition bind ::
  "('e, 'w, 'v, 'a) stmt \<Rightarrow> ('a \<Rightarrow> ('e, 'w, 'v, 'b) stmt) \<Rightarrow> ('e, 'w, 'v, 'b) stmt" where
  "bind m f s = (case m s of (Inl e, s') \<Rightarrow> (Inl e, s') | (Inr a, s') \<Rightarrow> f a s')"

text \<open>
  An external call: ask the libraries, log the call with its outcome, hand its warnings
  on, pass the outcome on.
\<close>

definition invoke :: "('e, 'w, 'v) libs \<Rightarrow> place \<Rightarrow> 'v call \<Rightarrow> ('e, 'w, 'v, 'v) stmt" where
  "invoke ext p c s =
     (let ws = fst (ext c); r = snd (ext c)
      in (case r of Inl e \<Rightarrow> Inl (Raised e) | Inr v \<Rightarrow> Inr v,
          s\<lparr>trace := trace s @ [Event p c r], warned := warned s @ ws\<rparr>))"

text \<open>\<^verbatim>\<open>co[col]\<close> and \<^verbatim>\<open>co[col][i]\<close> for \<open>i \<ge> 0\<close>.\<close>

definition column :: "'v table \<Rightarrow> string \<Rightarrow> ('e, 'w, 'v, 'v list) stmt" where
  "column co col s = (case co col of None \<Rightarrow> (Inl (KeyError col), s) | Some xs \<Rightarrow> (Inr xs, s))"

definition getitem :: "'v table \<Rightarrow> string \<Rightarrow> nat \<Rightarrow> ('e, 'w, 'v, 'v) stmt" where
  "getitem co col i =
     bind (column co col) (\<lambda>xs s.
       if i < length xs then (Inr (xs ! i), s) else (Inl (IndexError i), s))"

text \<open>
  \<^verbatim>\<open>mol_data[k] = v\<close>. When the libraries let the assignment through, column \<open>k\<close> holds
  \<open>v\<close> afterwards. When they raise, \<open>mol_data\<close> is left as it was and the exception ends
  the statement. The warnings of the assignment are handed on in both cases. The log
  is of the calls the cells write: an assignment that goes through leaves no entry in
  it, a failed one is entered with its error, so that the log shows where the
  exception was raised.
\<close>

definition setitem :: "('e, 'w, 'v) libs \<Rightarrow> place \<Rightarrow> string \<Rightarrow> 'v \<Rightarrow> ('e, 'w, 'v, unit) stmt" where
  "setitem ext p k v s =
     (let c = Phys_setitem (mol_data s) k v; ws = fst (ext c)
      in case snd (ext c) of
           Inl e \<Rightarrow> (Inl (Raised e),
                     s\<lparr>trace := trace s @ [Event p c (Inl e)], warned := warned s @ ws\<rparr>)
         | Inr _ \<Rightarrow> (Inr (),
                     s\<lparr>mol_data := AList.update k v (mol_data s), warned := warned s @ ws\<rparr>))"

text \<open>\<^verbatim>\<open>q_found_pyradex.append(v)\<close>, \<^verbatim>\<open>q_found_pyradex = []\<close>.\<close>

definition q_append :: "'v \<Rightarrow> ('e, 'w, 'v, unit) stmt" where
  "q_append v s = (Inr (), s\<lparr>q_found_pyradex := q_found_pyradex s @ [v]\<rparr>)"

definition q_reset :: "('e, 'w, 'v, unit) stmt" where
  "q_reset s = (Inr (), s\<lparr>q_found_pyradex := []\<rparr>)"

subsection \<open>The cells\<close>

text \<open>The names bound once before the loop and only read inside it.\<close>

record 'v env =
  nonlte :: 'v
  lte :: 'v
  coma :: 'v

text \<open>
  The body of \<^verbatim>\<open>for i in range(0, 5)\<close>, statement by statement:
  \<^verbatim>\<open>
    time = Time(co['Time'][i], format='iso')
    integrated_flux = co['T_B'][i] * u.K * u.km / u.s
    ephemobj = Ephem.from_horizons(target, epochs=time.jd)
    beta = beta_factor(mol_data, ephemobj)
    mol_data['beta'] = beta
    cdensity_bockelee = lte.cdensity_Bockelee(integrated_flux, mol_data)
    mol_data['cdensity'] = cdensity_bockelee
    cdensity = nonlte.from_pyradex(integrated_flux, mol_data)
    mol_data['cdensity'] = cdensity
    tnum = total_number(mol_data, aper, b)
    mol_data['total_number'] = tnum
    Q = from_Haser(coma, mol_data, aper=aper)
    q_found_pyradex.append(np.log10(Q.value)[0])
  \<close>
\<close>

definition body ::
  "('e, 'w, 'v) libs \<Rightarrow> 'v params \<Rightarrow> 'v table \<Rightarrow> 'v env \<Rightarrow> nat \<Rightarrow> ('e, 'w, 'v, unit) stmt" where
  "body ext prm co en i =
     bind (getitem co ''Time'' i) (\<lambda>cell.
     bind (invoke ext (In_loop i) (Time cell)) (\<lambda>time.
     bind (getitem co ''T_B'' i) (\<lambda>t_b.
     bind (invoke ext (In_loop i) (K_km_per_s t_b)) (\<lambda>integrated_flux.
     bind (invoke ext (In_loop i) (jd time)) (\<lambda>epochs.
     bind (invoke ext (In_loop i) (from_horizons target epochs)) (\<lambda>ephemobj.
     bind (\<lambda>s. invoke ext (In_loop i) (beta_factor (mol_data s) ephemobj) s) (\<lambda>beta.
     bind (setitem ext (In_loop i) ''beta'' beta) (\<lambda>_.
     bind (\<lambda>s. invoke ext (In_loop i)
                 (cdensity_Bockelee (lte en) integrated_flux (mol_data s)) s) (\<lambda>cdensity_bockelee.
     bind (setitem ext (In_loop i) ''cdensity'' cdensity_bockelee) (\<lambda>_.
     bind (\<lambda>s. invoke ext (In_loop i)
                 (from_pyradex (nonlte en) integrated_flux (mol_data s)) s) (\<lambda>cdensity.
     bind (setitem ext (In_loop i) ''cdensity'' cdensity) (\<lambda>_.
     bind (\<lambda>s. invoke ext (In_loop i)
                 (total_number (mol_data s) (aper prm) (b_antenna prm)) s) (\<lambda>tnum.
     bind (setitem ext (In_loop i) ''total_number'' tnum) (\<lambda>_.
     bind (\<lambda>s. invoke ext (In_loop i) (from_Haser (coma en) (mol_data s) (aper prm)) s) (\<lambda>Q.
     bind (invoke ext (In_loop i) (np_log10 Q)) (\<lambda>v.
     q_append v))))))))))))))))"

text \<open>The \<^verbatim>\<open>for\<close> statement over a list of indices; an exception in a body ends it.\<close>

fun loop ::
  "('e, 'w, 'v) libs \<Rightarrow> 'v params \<Rightarrow> 'v table \<Rightarrow> 'v env \<Rightarrow> nat list \<Rightarrow> ('e, 'w, 'v, unit) stmt" where
  "loop ext prm co en [] s = (Inr (), s)"
| "loop ext prm co en (i # is) s =
     (case body ext prm co en i s of
        (Inl e, s') \<Rightarrow> (Inl e, s')
      | (Inr _, s') \<Rightarrow> loop ext prm co en is s')"


text \<open>
  The cell with the loop:
  \<^verbatim>\<open>
  nonlte = NonLTE()
  q_found_pyradex = []
  lte = LTE()
  for i in range(0, 5):
      ...
  q_pred_co = list(co['log(Q)'])
  \<close>
\<close>

definition loop_cell ::
  "('e, 'w, 'v) libs \<Rightarrow> 'v params \<Rightarrow> 'v table \<Rightarrow> 'v \<Rightarrow> ('e, 'w, 'v, unit) stmt" where
  "loop_cell ext prm co cm =
     bind (invoke ext Before_loop NonLTE) (\<lambda>n.
     bind q_reset (\<lambda>_.
     bind (invoke ext Before_loop LTE) (\<lambda>l.
     bind (loop ext prm co \<lparr>nonlte = n, lte = l, coma = cm\<rparr> [0..<5]) (\<lambda>_.
     bind (column co ''log(Q)'') (\<lambda>xs s.
     (Inr (), s\<lparr>q_pred_co := Some xs\<rparr>))))))"


subsection \<open>Reading the call log\<close>

text \<open>
  The name of the function a call goes to, as the source writes it; an item assignment
  goes to the method \<^verbatim>\<open>__setitem__\<close>.
\<close>

fun call_name :: "'v call \<Rightarrow> string" where
  "call_name (photo_timescale _) = ''photo_timescale''"
| "call_name (multiply _ _) = ''multiply''"
| "call_name (Haser _ _ _) = ''Haser''"
| "call_name NonLTE = ''NonLTE''"
| "call_name LTE = ''LTE''"
| "call_name (Time _) = ''Time''"
| "call_name (K_km_per_s _) = ''K_km_per_s''"
| "call_name (jd _) = ''jd''"
| "call_name (from_horizons _ _) = ''from_horizons''"
| "call_name (beta_factor _ _) = ''beta_factor''"
| "call_name (cdensity_Bockelee _ _ _) = ''cdensity_Bockelee''"
| "call_name (from_pyradex _ _ _) = ''from_pyradex''"
| "call_name (total_number _ _ _) = ''total_number''"
| "call_name (from_Haser _ _ _) = ''from_Haser''"
| "call_name (np_log10 _) = ''np_log10''"
| "call_name (Phys_setitem _ _ _) = ''__setitem__''"


definition tag :: "('e, 'v) event \<Rightarrow> place \<times> string" where
  "tag ev = (place ev, call_name (call ev))"

text \<open>The \<open>mol_data\<close> a call was given, the coma model a call was given, the value a call returned.\<close>

fun phys_arg :: "'v call \<Rightarrow> 'v phys option" where
  "phys_arg (beta_factor md _) = Some md"
| "phys_arg (cdensity_Bockelee _ _ md) = Some md"
| "phys_arg (from_pyradex _ _ md) = Some md"
| "phys_arg (total_number md _ _) = Some md"
| "phys_arg (from_Haser _ md _) = Some md"
| "phys_arg (Phys_setitem md _ _) = Some md"
| "phys_arg _ = None"

definition field_read :: "('e, 'v) event \<Rightarrow> string \<Rightarrow> 'v option" where
  "field_read ev k = (case phys_arg (call ev) of None \<Rightarrow> None | Some md \<Rightarrow> map_of md k)"

fun coma_arg :: "'v call \<Rightarrow> 'v option" where
  "coma_arg (from_Haser c _ _) = Some c"
| "coma_arg _ = None"

definition returned :: "('e, 'v) event \<Rightarrow> 'v option" where
  "returned ev = (case outcome ev of Inl _ \<Rightarrow> None | Inr v \<Rightarrow> Some v)"

text \<open>The events a statement added to the log, and those of them issued at loop index \<open>i\<close>.\<close>

definition added :: "('e, 'w, 'v) state \<Rightarrow> ('e, 'w, 'v) state \<Rightarrow> ('e, 'v) event list" where
  "added s s' = drop (length (trace s)) (trace s')"

definition events_of :: "nat \<Rightarrow> ('e, 'v) event list \<Rightarrow> ('e, 'v) event list" where
  "events_of i evs = filter (\<lambda>ev. place ev = In_loop i) evs"

text \<open>The calls of the loop body by name, in the order of its statements.\<close>

definition body_calls :: "string list" where
  "body_calls = [''Time'', ''K_km_per_s'', ''jd'', ''from_horizons'', ''beta_factor'',
     ''cdensity_Bockelee'', ''from_pyradex'', ''total_number'', ''from_Haser'', ''np_log10'']"






subsection \<open>A concrete run\<close>

text \<open>
  Stand-ins for the libraries on integers, used to run the cells on concrete tables.
  The non-LTE solver warns of a missing data file at every call and of an overflow for
  a flux above 26, and returns all the same; the calls that read a field of \<open>mol_data\<close>
  fail when it is missing; the assignment of a negative value to \<open>mol_data\<close> raises.
\<close>

definition ex_ext :: "int call \<Rightarrow> string list \<times> (string + int)" where
  "ex_ext c = (case c of
      photo_timescale m \<Rightarrow> ([], Inr 100)
    | multiply x y \<Rightarrow> ([], Inr (x * y))
    | Haser q v p \<Rightarrow> ([], Inr (q + v + p))
    | NonLTE \<Rightarrow> ([], Inr 1)
    | LTE \<Rightarrow> ([], Inr 2)
    | Time c \<Rightarrow> ([], Inr c)
    | K_km_per_s c \<Rightarrow> ([], Inr c)
    | jd t \<Rightarrow> ([], Inr (t + 1000))
    | from_horizons tg ep \<Rightarrow> ([], Inr (2 * ep))
    | beta_factor md eph \<Rightarrow> ([], Inr (eph + 1))
    | cdensity_Bockelee l fl md \<Rightarrow> ([], Inr (10 * fl))
    | from_pyradex n fl md \<Rightarrow>
        (''no data file'' # (if 26 < fl then [''overflow in exp''] else []),
         case map_of md ''cdensity'' of None \<Rightarrow> Inl ''no cdensity'' | Some g \<Rightarrow> Inr (g + 1))
    | total_number md a b \<Rightarrow>
        ([], case map_of md ''cdensity'' of None \<Rightarrow> Inl ''no cdensity'' | Some n \<Rightarrow> Inr (n * a))
    | from_Haser cm md a \<Rightarrow>
        ([], case map_of md ''total_number'' of
               None \<Rightarrow> Inl ''no total_number'' | Some n \<Rightarrow> Inr (n + cm))
    | np_log10 q \<Rightarrow> ([], Inr q)
    | Phys_setitem md k v \<Rightarrow> ([], if v < 0 then Inl ''inconsistent column'' else Inr v))"


definition ex_prm :: "int params" where
  "ex_prm = \<lparr>aper = 10, b_antenna = 74, vgas = 5, Q_estimate = 3594\<rparr>"

definition ex_env :: "int env" where
  "ex_env = \<lparr>nonlte = 1, lte = 2, coma = 4099\<rparr>"

definition ex_co :: "int table" where
  "ex_co = map_of [(''Time'', [1, 2, 3, 4, 5]), (''T_B'', [26, 28, 26, 27, 27]),
                   (''log(Q)'', [2864, 2866, 2866, 2866, 2866])]"

text \<open>The same epochs and fluxes with other literature columns.\<close>

definition ex_co_other :: "int table" where
  "ex_co_other = map_of [(''Time'', [1, 2, 3, 4, 5]), (''T_B'', [26, 28, 26, 27, 27]),
                         (''Q'', [44, 46, 46, 46, 46]), (''log(Q)'', [0, 0, 0, 0, 0])]"

text \<open>A table whose third flux makes an assignment to \<open>mol_data\<close> fail.\<close>

definition ex_co_bad :: "int table" where
  "ex_co_bad = map_of [(''Time'', [1, 2, 3, 4, 5]), (''T_B'', [26, 28, - 1, 27, 27]),
                       (''log(Q)'', [2864, 2866, 2866, 2866, 2866])]"

definition ex_md :: "int phys" where
  "ex_md = [(''t_freq'', 230538), (''eincoeff'', 7)]"

definition ex_s :: "(string, string, int) state" where
  "ex_s = \<lparr>mol_data = ex_md, q_found_pyradex = [], q_pred_co = None, trace = [],
            warned = []\<rparr>"


section \<open>Properties of the statements and of the loop\<close>

subsection \<open>Statements, one at a time\<close>

lemma bind_Inr: "bind m f s = (Inr b, s'') \<longleftrightarrow> (\<exists>a s'. m s = (Inr a, s') \<and> f a s' = (Inr b, s''))"
  by (auto simp: bind_def split: prod.splits sum.splits)

lemma bind_Inl: "bind m f s = (Inl e, s'') \<longleftrightarrow>
   m s = (Inl e, s'') \<or> (\<exists>a s'. m s = (Inr a, s') \<and> f a s' = (Inl e, s''))"
  by (auto simp: bind_def split: prod.splits sum.splits)

lemma bind_fst_snd:
  "bind m f s = (case fst (m s) of Inl e \<Rightarrow> (Inl e, snd (m s)) | Inr a \<Rightarrow> f a (snd (m s)))"
  by (auto simp: bind_def split: prod.splits sum.splits)

lemma invoke_Inr: "invoke ext p c s = (Inr v, s') \<longleftrightarrow>
   snd (ext c) = Inr v \<and>
   s' = s\<lparr>trace := trace s @ [Event p c (Inr v)], warned := warned s @ fst (ext c)\<rparr>"
  by (auto simp: invoke_def Let_def split: sum.splits)

lemma invoke_Inl: "invoke ext p c s = (Inl e, s') \<longleftrightarrow>
   (\<exists>x. snd (ext c) = Inl x \<and> e = Raised x \<and>
        s' = s\<lparr>trace := trace s @ [Event p c (Inl x)], warned := warned s @ fst (ext c)\<rparr>)"
  by (auto simp: invoke_def Let_def split: sum.splits)

lemma getitem_Inr: "getitem co col i s = (Inr v, s') \<longleftrightarrow>
   (\<exists>xs. co col = Some xs \<and> i < length xs \<and> v = xs ! i \<and> s' = s)"
  by (auto simp: getitem_def column_def bind_def split: option.splits)

lemma getitem_Inl: "getitem co col i s = (Inl e, s') \<longleftrightarrow>
   s' = s \<and> (co col = None \<and> e = KeyError col \<or>
             (\<exists>xs. co col = Some xs \<and> \<not> i < length xs \<and> e = IndexError i))"
  by (auto simp: getitem_def column_def bind_def split: option.splits)

lemma column_Inr: "column co col s = (Inr xs, s') \<longleftrightarrow> co col = Some xs \<and> s' = s"
  by (auto simp: column_def split: option.splits)

lemma column_Inl: "column co col s = (Inl e, s') \<longleftrightarrow> co col = None \<and> e = KeyError col \<and> s' = s"
  by (auto simp: column_def split: option.splits)

lemma setitem_Inr: "setitem ext p k v s = (Inr u, s') \<longleftrightarrow>
   (\<exists>w. snd (ext (Phys_setitem (mol_data s) k v)) = Inr w) \<and>
   s' = s\<lparr>mol_data := AList.update k v (mol_data s),
          warned := warned s @ fst (ext (Phys_setitem (mol_data s) k v))\<rparr>"
  by (auto simp: setitem_def Let_def split: sum.splits)

lemma setitem_Inl: "setitem ext p k v s = (Inl e, s') \<longleftrightarrow>
   (\<exists>x. snd (ext (Phys_setitem (mol_data s) k v)) = Inl x \<and> e = Raised x \<and>
        s' = s\<lparr>trace := trace s @ [Event p (Phys_setitem (mol_data s) k v) (Inl x)],
               warned := warned s @ fst (ext (Phys_setitem (mol_data s) k v))\<rparr>)"
  by (auto simp: setitem_def Let_def split: sum.splits)

lemma q_append_eq: "q_append v s = (r, s') \<longleftrightarrow>
   r = Inr () \<and> s' = s\<lparr>q_found_pyradex := q_found_pyradex s @ [v]\<rparr>"
  by (auto simp: q_append_def)

lemma q_reset_eq: "q_reset s = (r, s') \<longleftrightarrow> r = Inr () \<and> s' = s\<lparr>q_found_pyradex := []\<rparr>"
  by (auto simp: q_reset_def)

lemmas stmt_simps = bind_Inr bind_Inl invoke_Inr invoke_Inl getitem_Inr getitem_Inl
  column_Inr column_Inl setitem_Inr setitem_Inl q_append_eq q_reset_eq

subsection \<open>One iteration\<close>

lemma body_Inr:
  assumes "body ext prm co en i s = (Inr u, s')"
  shows "\<exists>xs ys time fl ep eph be c1 c2 tn Q v.
     co ''Time'' = Some xs \<and> i < length xs \<and> co ''T_B'' = Some ys \<and> i < length ys \<and>
     mol_data s' = AList.update ''total_number'' tn (AList.update ''cdensity'' c2
                (AList.update ''cdensity'' c1 (AList.update ''beta'' be (mol_data s)))) \<and>
     q_found_pyradex s' = q_found_pyradex s @ [v] \<and>
     q_pred_co s' = q_pred_co s \<and>
     trace s' = trace s @ added s s' \<and>
     added s s' =
              [Event (In_loop i) (Time (xs ! i)) (Inr time),
               Event (In_loop i) (K_km_per_s (ys ! i)) (Inr fl),
               Event (In_loop i) (jd time) (Inr ep),
               Event (In_loop i) (from_horizons target ep) (Inr eph),
               Event (In_loop i) (beta_factor (mol_data s) eph) (Inr be),
               Event (In_loop i) (cdensity_Bockelee (lte en) fl
                  (AList.update ''beta'' be (mol_data s))) (Inr c1),
               Event (In_loop i) (from_pyradex (nonlte en) fl
                  (AList.update ''cdensity'' c1 (AList.update ''beta'' be (mol_data s)))) (Inr c2),
               Event (In_loop i) (total_number
                  (AList.update ''cdensity'' c2 (AList.update ''cdensity'' c1
                    (AList.update ''beta'' be (mol_data s)))) (aper prm) (b_antenna prm)) (Inr tn),
               Event (In_loop i) (from_Haser (coma en)
                  (AList.update ''total_number'' tn (AList.update ''cdensity'' c2
                    (AList.update ''cdensity'' c1 (AList.update ''beta'' be (mol_data s)))))
                  (aper prm)) (Inr Q),
               Event (In_loop i) (np_log10 Q) (Inr v)]"
  using assms unfolding body_def
  by (auto simp: bind_Inr invoke_Inr getitem_Inr setitem_Inr q_append_eq added_def)

lemma body_Inl:
  assumes "body ext prm co en i s = (Inl e, s')"
  shows "q_found_pyradex s' = q_found_pyradex s" "q_pred_co s' = q_pred_co s"
     "\<forall>k. k \<notin> {''beta'', ''cdensity'', ''total_number''} \<longrightarrow>
          map_of (mol_data s') k = map_of (mol_data s) k"
     "trace s' = trace s @ added s s'" "length (added s s') \<le> 10"
     "distinct (map tag (added s s'))"
     "\<forall>ev \<in> set (added s s'). \<forall>c. coma_arg (call ev) = Some c \<longrightarrow> c = coma en"
     "\<forall>ev \<in> set (butlast (added s s')). \<exists>v. outcome ev = Inr v"
     "(\<exists>col. e = KeyError col \<and> (\<forall>ev \<in> set (added s s'). \<exists>v. outcome ev = Inr v)) \<or>
      (e = IndexError i \<and> (\<forall>ev \<in> set (added s s'). \<exists>v. outcome ev = Inr v)) \<or>
      (\<exists>x. e = Raised x \<and> added s s' \<noteq> [] \<and> outcome (last (added s s')) = Inl x)"
     "\<forall>ev \<in> set (added s s'). place ev = In_loop i"
  using assms unfolding body_def
  by (auto simp: stmt_simps tag_def update_conv added_def)

subsection \<open>Runs of the loop\<close>

lemma added_same: "added s s = []"
  by (simp add: added_def)

lemma added_ext: "trace s' = trace s @ evs \<Longrightarrow> added s s' = evs"
  by (simp add: added_def)

lemma body_trace: "body ext prm co en i s = (r, s') \<Longrightarrow> trace s' = trace s @ added s s'"
  by (cases r) (auto dest: body_Inl(4) body_Inr)

lemma loop_trace: "loop ext prm co en is s = (r, s') \<Longrightarrow> trace s' = trace s @ added s s'"
proof (induction "is" arbitrary: s)
  case Nil
  then show ?case by (simp add: added_same)
next
  case (Cons i "is")
  show ?case
  proof (cases "body ext prm co en i s")
    case (Pair r1 s1)
    note b = body_trace [OF Pair]
    show ?thesis
    proof (cases r1)
      case (Inl e)
      with Pair Cons.prems b show ?thesis by simp
    next
      case (Inr u)
      with Pair Cons.prems have "loop ext prm co en is s1 = (r, s')" by simp
      from Cons.IH [OF this] b have t: "trace s' = trace s @ (added s s1 @ added s1 s')" by simp
      from added_ext [OF t] t show ?thesis by simp
    qed
  qed
qed

text \<open>The shape of every run of the loop: a failing body ends it, a completed one is followed by the rest.\<close>

lemma loop_cases [consumes 1, case_names Nil Fail Step]:
  assumes "loop ext prm co en is s = (r, s')"
    and "\<And>s. P [] s (Inr ()) s"
    and "\<And>i is s e s1. body ext prm co en i s = (Inl e, s1) \<Longrightarrow> P (i # is) s (Inl e) s1"
    and "\<And>i is s s1 r s2. body ext prm co en i s = (Inr (), s1) \<Longrightarrow>
           loop ext prm co en is s1 = (r, s2) \<Longrightarrow>
           added s s2 = added s s1 @ added s1 s2 \<Longrightarrow> P is s1 r s2 \<Longrightarrow> P (i # is) s r s2"
  shows "P is s r s'"
  using assms(1)
proof (induction "is" arbitrary: s)
  case Nil
  then show ?case using assms(2) by simp
next
  case (Cons i "is")
  show ?case
  proof (cases "body ext prm co en i s")
    case (Pair r1 s1)
    show ?thesis
    proof (cases r1)
      case (Inl e)
      with Pair Cons.prems assms(3) [of i s e s1 "is"] show ?thesis by simp
    next
      case (Inr u)
      with Pair Cons.prems have l: "loop ext prm co en is s1 = (r, s')" by simp
      from Pair Inr have b: "body ext prm co en i s = (Inr (), s1)" by simp
      from loop_trace [OF l] body_trace [OF b]
      have "trace s' = trace s @ (added s s1 @ added s1 s')" by simp
      then have "added s s' = added s s1 @ added s1 s'" by (rule added_ext)
      with assms(4) [OF b l _ Cons.IH [OF l]] show ?thesis by simp
    qed
  qed
qed

lemma loop_fst_snd:
  "loop ext prm co en (i # is) s =
     (case fst (body ext prm co en i s) of
        Inl e \<Rightarrow> (Inl e, snd (body ext prm co en i s))
      | Inr _ \<Rightarrow> loop ext prm co en is (snd (body ext prm co en i s)))"
  by (auto split: prod.splits sum.splits)






lemma body_places:
  assumes "body ext prm co en i s = (r, s')"
  shows "\<forall>ev \<in> set (added s s'). place ev = In_loop i"
proof (cases r)
  case (Inl e)
  with assms show ?thesis by (auto dest: body_Inl(10))
next
  case (Inr u)
  with assms body_Inr [of ext prm co en i s u s'] show ?thesis by auto
qed

lemma loop_places:
  assumes "loop ext prm co en is s = (r, s')"
  shows "\<forall>ev \<in> set (added s s'). \<exists>i \<in> set is. place ev = In_loop i"
  using assms
proof (induct "is" s r s' rule: loop_cases)
  case (Nil s)
  then show ?case by (simp add: added_same)
next
  case (Fail i "is" s e s1)
  from body_places [OF Fail] show ?case by simp
next
  case (Step i "is" s s1 r s2)
  from body_places [OF Step(1)] Step(4) show ?case
    unfolding Step(3) by auto
qed




lemma body_frame:
  assumes "body ext prm co en i s = (r, s')"
  shows "(\<forall>k. k \<notin> {''beta'', ''cdensity'', ''total_number''} \<longrightarrow>
            map_of (mol_data s') k = map_of (mol_data s) k) \<and>
         q_pred_co s' = q_pred_co s \<and> prefix (q_found_pyradex s) (q_found_pyradex s')"
proof (cases r)
  case (Inl e)
  with assms body_Inl(1,2,3) [of ext prm co en i s e s'] show ?thesis by simp
next
  case (Inr u)
  with assms body_Inr [of ext prm co en i s u s'] show ?thesis
    by (auto simp: update_conv)
qed

lemma loop_frame:
  assumes "loop ext prm co en is s = (r, s')"
  shows "(\<forall>k. k \<notin> {''beta'', ''cdensity'', ''total_number''} \<longrightarrow>
            map_of (mol_data s') k = map_of (mol_data s) k) \<and>
         q_pred_co s' = q_pred_co s \<and> prefix (q_found_pyradex s) (q_found_pyradex s')"
  using assms
proof (induct "is" s r s' rule: loop_cases)
  case (Nil s)
  then show ?case by simp
next
  case (Fail i "is" s e s1)
  from body_frame [OF Fail] show ?case .
next
  case (Step i "is" s s1 r s2)
  from body_frame [OF Step(1)] Step(4) show ?case
    by (auto intro: prefix_order.trans)
qed




lemma events_of_append: "events_of i (xs @ ys) = events_of i xs @ events_of i ys"
  by (simp add: events_of_def)

lemma events_of_all: "\<forall>ev \<in> set evs. place ev = In_loop i \<Longrightarrow> events_of i evs = evs"
  by (simp add: events_of_def)

lemma events_of_none: "\<forall>ev \<in> set evs. place ev \<noteq> In_loop i \<Longrightarrow> events_of i evs = []"
  by (simp add: events_of_def)



lemma column_cong: "co col = co' col \<Longrightarrow> column co col = column co' col"
  by (auto simp: column_def fun_eq_iff)

lemma body_same_columns:
  assumes "co ''Time'' = co' ''Time''" "co ''T_B'' = co' ''T_B''"
  shows "body ext prm co en i = body ext prm co' en i"
  by (simp add: body_def getitem_def column_cong [of co "''Time''" co', OF assms(1)]
      column_cong [of co "''T_B''" co', OF assms(2)])

lemma loop_same_columns:
  assumes "co ''Time'' = co' ''Time''" "co ''T_B'' = co' ''T_B''"
  shows "loop ext prm co en is s = loop ext prm co' en is s"
  by (induction "is" arbitrary: s)
     (auto simp: body_same_columns [OF assms] split: prod.splits sum.splits)

lemma loop_cell_results:
  "q_found_pyradex (snd (loop_cell ext prm co cm s)) =
     q_found_pyradex (snd (bind (invoke ext Before_loop NonLTE) (\<lambda>n.
       bind q_reset (\<lambda>_. bind (invoke ext Before_loop LTE) (\<lambda>l.
       loop ext prm co \<lparr>nonlte = n, lte = l, coma = cm\<rparr> [0..<5]))) s)) \<and>
   trace (snd (loop_cell ext prm co cm s)) =
     trace (snd (bind (invoke ext Before_loop NonLTE) (\<lambda>n.
       bind q_reset (\<lambda>_. bind (invoke ext Before_loop LTE) (\<lambda>l.
       loop ext prm co \<lparr>nonlte = n, lte = l, coma = cm\<rparr> [0..<5]))) s))"
  unfolding loop_cell_def
  by (simp add: bind_def column_def split: prod.splits sum.splits option.splits)









lemma loop_chain:
  assumes "loop ext prm co en is s = (r, s')"
  shows "r = Inr () \<longrightarrow> (\<exists>ss. length ss = Suc (length is) \<and> ss ! 0 = s \<and> ss ! length is = s' \<and>
     (\<forall>k<length is. body ext prm co en (is ! k) (ss ! k) = (Inr (), ss ! Suc k) \<and>
        (distinct is \<longrightarrow> events_of (is ! k) (added s s') = added (ss ! k) (ss ! Suc k))))"
  using assms
proof (induct "is" s r s' rule: loop_cases)
  case (Nil s)
  then show ?case by (auto intro!: exI [of _ "[s]"])
next
  case (Fail i "is" s e s1)
  then show ?case by simp
next
  case (Step i "is" s s1 r s2)
  show ?case
  proof
    assume r: "r = Inr ()"
    with Step(4) obtain ss where ss: "length ss = Suc (length is)" "ss ! 0 = s1" "ss ! length is = s2"
      "\<forall>k<length is. body ext prm co en (is ! k) (ss ! k) = (Inr (), ss ! Suc k) \<and>
        (distinct is \<longrightarrow> events_of (is ! k) (added s1 s2) = added (ss ! k) (ss ! Suc k))"
      by blast
    have "\<forall>k<length (i # is).
        body ext prm co en ((i # is) ! k) ((s # ss) ! k) = (Inr (), (s # ss) ! Suc k) \<and>
        (distinct (i # is) \<longrightarrow>
           events_of ((i # is) ! k) (added s s2) = added ((s # ss) ! k) ((s # ss) ! Suc k))"
    proof (intro allI impI)
      fix k assume k: "k < length (i # is)"
      show "body ext prm co en ((i # is) ! k) ((s # ss) ! k) = (Inr (), (s # ss) ! Suc k) \<and>
        (distinct (i # is) \<longrightarrow>
           events_of ((i # is) ! k) (added s s2) = added ((s # ss) ! k) ((s # ss) ! Suc k))"
      proof (cases k)
        case 0
        have "distinct (i # is) \<longrightarrow> events_of i (added s s2) = added s s1"
        proof
          assume d: "distinct (i # is)"
          with loop_places [OF Step(2)] have "\<forall>ev \<in> set (added s1 s2). place ev \<noteq> In_loop i"
            by auto
          then have "events_of i (added s1 s2) = []" by (rule events_of_none)
          moreover have "events_of i (added s s1) = added s s1"
            using body_places [OF Step(1)] by (rule events_of_all)
          ultimately show "events_of i (added s s2) = added s s1"
            unfolding Step(3) by (simp add: events_of_append)
        qed
        with 0 Step(1) ss(2) show ?thesis by simp
      next
        case (Suc j)
        with k have j: "j < length is" by simp
        have "distinct (i # is) \<longrightarrow> events_of (is ! j) (added s s2) = added (ss ! j) (ss ! Suc j)"
        proof
          assume d: "distinct (i # is)"
          with j have "is ! j \<noteq> i" by auto
          with body_places [OF Step(1)] have "\<forall>ev \<in> set (added s s1). place ev \<noteq> In_loop (is ! j)"
            by auto
          then have "events_of (is ! j) (added s s1) = []" by (rule events_of_none)
          then have "events_of (is ! j) (added s s2) = events_of (is ! j) (added s1 s2)"
            unfolding Step(3) by (simp add: events_of_append)
          with ss(4) j d show "events_of (is ! j) (added s s2) = added (ss ! j) (ss ! Suc j)"
            by simp
        qed
        with Suc j ss(4) show ?thesis by simp
      qed
    qed
    with ss(1,3) show "\<exists>ss. length ss = Suc (length (i # is)) \<and> ss ! 0 = s \<and>
        ss ! length (i # is) = s2 \<and>
        (\<forall>k<length (i # is). body ext prm co en ((i # is) ! k) (ss ! k) = (Inr (), ss ! Suc k) \<and>
        (distinct (i # is) \<longrightarrow> events_of ((i # is) ! k) (added s s2) = added (ss ! k) (ss ! Suc k)))"
      by (intro exI [of _ "s # ss"]) simp
  qed
qed


lemma loop_chain_5:
  assumes "loop ext prm co en [0..<5] s = (Inr (), s')"
  shows "\<exists>ss. ss ! 0 = s \<and> ss ! 5 = s' \<and>
     (\<forall>i<5. body ext prm co en i (ss ! i) = (Inr (), ss ! Suc i) \<and>
        events_of i (added s s') = added (ss ! i) (ss ! Suc i))"
proof -
  from loop_chain [OF assms] obtain ss where
    ss: "ss ! 0 = s" "ss ! length [0..<5] = s'"
     "\<forall>k<length [0..<5]. body ext prm co en ([0..<5] ! k) (ss ! k) = (Inr (), ss ! Suc k) \<and>
        (distinct [0..<5] \<longrightarrow> events_of ([0..<5] ! k) (added s s') = added (ss ! k) (ss ! Suc k))"
    by blast
  have "\<forall>i<5. body ext prm co en i (ss ! i) = (Inr (), ss ! Suc i) \<and>
        events_of i (added s s') = added (ss ! i) (ss ! Suc i)"
  proof (intro allI impI)
    fix i :: nat assume i: "i < 5"
    then have "[0..<5] ! i = i" by simp
    with ss(3) i show "body ext prm co en i (ss ! i) = (Inr (), ss ! Suc i) \<and>
        events_of i (added s s') = added (ss ! i) (ss ! Suc i)"
      by (metis distinct_upt length_upt diff_zero)
  qed
  with ss(1,2) show ?thesis by auto
qed

text \<open>What one completed iteration reads from and leaves in \<open>mol_data\<close>.\<close>

lemma body_Inr_fields:
  assumes "body ext prm co en i s = (Inr u, s')"
  shows "length (added s s') = 10"
    and "map (\<lambda>ev. call_name (call ev)) (added s s') = body_calls"
    and "\<forall>ev \<in> set (added s s'). returned ev \<noteq> None"
    and "phys_arg (call (added s s' ! 4)) = Some (mol_data s)"
    and "field_read (added s s' ! 6) ''cdensity'' = returned (added s s' ! 5)"
    and "field_read (added s s' ! 7) ''cdensity'' = returned (added s s' ! 6)"
    and "field_read (added s s' ! 8) ''cdensity'' = returned (added s s' ! 6)"
    and "field_read (added s s' ! 8) ''total_number'' = returned (added s s' ! 7)"
    and "map_of (mol_data s') ''beta'' = returned (added s s' ! 4)"
    and "map_of (mol_data s') ''cdensity'' = returned (added s s' ! 6)"
    and "map_of (mol_data s') ''total_number'' = returned (added s s' ! 7)"
  using body_Inr [OF assms]
  by (auto simp: field_read_def returned_def update_conv body_calls_def)




subsection \<open>Warnings\<close>

















subsection \<open>Running the cells on concrete inputs\<close>

lemma invoke_eval:
  "invoke ext p c s =
     (case snd (ext c) of
        Inl e \<Rightarrow> (Inl (Raised e),
                  s\<lparr>trace := trace s @ [Event p c (Inl e)], warned := warned s @ fst (ext c)\<rparr>)
      | Inr v \<Rightarrow> (Inr v,
                  s\<lparr>trace := trace s @ [Event p c (Inr v)], warned := warned s @ fst (ext c)\<rparr>))"
  by (auto simp: invoke_def Let_def split: sum.splits)

lemma setitem_eval:
  "setitem ext p k v s =
     (case snd (ext (Phys_setitem (mol_data s) k v)) of
        Inl e \<Rightarrow> (Inl (Raised e),
                  s\<lparr>trace := trace s @ [Event p (Phys_setitem (mol_data s) k v) (Inl e)],
                    warned := warned s @ fst (ext (Phys_setitem (mol_data s) k v))\<rparr>)
      | Inr _ \<Rightarrow> (Inr (),
                  s\<lparr>mol_data := AList.update k v (mol_data s),
                    warned := warned s @ fst (ext (Phys_setitem (mol_data s) k v))\<rparr>))"
  by (simp add: setitem_def Let_def)

lemmas eval_simps = bind_fst_snd invoke_eval loop_fst_snd loop.simps(1) body_def getitem_def
  column_def setitem_eval q_append_def q_reset_def target_def upt_rec

lemmas ex_defs = ex_ext_def ex_prm_def ex_env_def ex_co_def ex_co_bad_def ex_md_def ex_s_def

lemma ex_loop_completes: "fst (loop ex_ext ex_prm ex_co ex_env [0..<5] ex_s) = Inr ()"
  by (simp add: ex_defs eval_simps cong: sum.case_cong_weak option.case_cong_weak)








lemma ex_body_completes: "fst (body ex_ext ex_prm ex_co ex_env 0 ex_s) = Inr ()"
  by (simp add: ex_defs eval_simps cong: sum.case_cong_weak option.case_cong_weak)

section \<open>The claims\<close>





text \<open>
  C3 (as amended). The values the loop produces live in the notebook's variables, and
  some are carried from one iteration to the next. Whatever the run, the loop leaves
  every field of \<open>mol_data\<close> other than \<open>beta\<close>, \<open>cdensity\<close> and \<open>total_number\<close> as it
  was, only appends to the results list and to the call log, and does not touch
  \<open>q_pred_co\<close>. In a completed run the first call that takes \<open>mol_data\<close> is handed the
  \<open>mol_data\<close> the loop started with, the \<open>beta_factor\<close> call of each later iteration is
  handed the beta factor, the fitted column density and the total number of the
  iteration before it, and after the loop \<open>mol_data\<close> holds those of the last iteration.
\<close>

theorem loop_carries_mol_data_and_results:
  assumes "loop ext prm co en [0..<5] s = (r, s')"
  shows "(\<forall>k. k \<notin> {''beta'', ''cdensity'', ''total_number''} \<longrightarrow>
            map_of (mol_data s') k = map_of (mol_data s) k) \<and>
     q_pred_co s' = q_pred_co s \<and>
     prefix (q_found_pyradex s) (q_found_pyradex s') \<and>
     prefix (trace s) (trace s') \<and>
     (r = Inr () \<longrightarrow>
        phys_arg (call (events_of 0 (added s s') ! 4)) = Some (mol_data s) \<and>
        (\<forall>i<4.
           field_read (events_of (Suc i) (added s s') ! 4) ''beta'' =
             returned (events_of i (added s s') ! 4) \<and>
           field_read (events_of (Suc i) (added s s') ! 4) ''cdensity'' =
             returned (events_of i (added s s') ! 6) \<and>
           field_read (events_of (Suc i) (added s s') ! 4) ''total_number'' =
             returned (events_of i (added s s') ! 7)) \<and>
        map_of (mol_data s') ''beta'' = returned (events_of 4 (added s s') ! 4) \<and>
        map_of (mol_data s') ''cdensity'' = returned (events_of 4 (added s s') ! 6) \<and>
        map_of (mol_data s') ''total_number'' = returned (events_of 4 (added s s') ! 7))"
proof (intro conjI impI)
  from loop_frame [OF assms]
  show "\<forall>k. k \<notin> {''beta'', ''cdensity'', ''total_number''} \<longrightarrow>
            map_of (mol_data s') k = map_of (mol_data s) k"
    and "q_pred_co s' = q_pred_co s"
    and "prefix (q_found_pyradex s) (q_found_pyradex s')"
    by simp_all
  from loop_trace [OF assms] show "prefix (trace s) (trace s')"
    by (metis prefixI)
next
  assume "r = Inr ()"
  with assms have l: "loop ext prm co en [0..<5] s = (Inr (), s')" by simp
  from loop_chain_5 [OF l] obtain ss where
    ss: "ss ! 0 = s" "ss ! 5 = s'"
      "\<forall>i<5. body ext prm co en i (ss ! i) = (Inr (), ss ! Suc i) \<and>
        events_of i (added s s') = added (ss ! i) (ss ! Suc i)"
    by blast
  have b: "body ext prm co en i (ss ! i) = (Inr (), ss ! Suc i)"
    and e: "events_of i (added s s') = added (ss ! i) (ss ! Suc i)" if "i < 5" for i
    using ss(3) that by simp_all
  from body_Inr_fields(4) [OF b [of 0]] ss(1)
  show "phys_arg (call (events_of 0 (added s s') ! 4)) = Some (mol_data s)"
    by (simp add: e)
  show "\<forall>i<4.
           field_read (events_of (Suc i) (added s s') ! 4) ''beta'' =
             returned (events_of i (added s s') ! 4) \<and>
           field_read (events_of (Suc i) (added s s') ! 4) ''cdensity'' =
             returned (events_of i (added s s') ! 6) \<and>
           field_read (events_of (Suc i) (added s s') ! 4) ''total_number'' =
             returned (events_of i (added s s') ! 7)"
  proof (intro allI impI)
    fix i :: nat assume i: "i < 4"
    then have i5: "i < 5" and si5: "Suc i < 5" by simp_all
    note f = body_Inr_fields [OF b [OF i5]]
    note g = body_Inr_fields(4) [OF b [OF si5]]
    from g have "field_read (added (ss ! Suc i) (ss ! Suc (Suc i)) ! 4) k =
        map_of (mol_data (ss ! Suc i)) k" for k
      by (simp add: field_read_def)
    with f(9,10,11)
    show "field_read (events_of (Suc i) (added s s') ! 4) ''beta'' =
             returned (events_of i (added s s') ! 4) \<and>
           field_read (events_of (Suc i) (added s s') ! 4) ''cdensity'' =
             returned (events_of i (added s s') ! 6) \<and>
           field_read (events_of (Suc i) (added s s') ! 4) ''total_number'' =
             returned (events_of i (added s s') ! 7)"
      unfolding e [OF i5] e [OF si5] by simp
  qed
  have "(4::nat) < 5" by simp
  note f4 = body_Inr_fields [OF b [OF this]]
  from f4(9) ss(2) show "map_of (mol_data s') ''beta'' = returned (events_of 4 (added s s') ! 4)"
    by (simp add: e)
  from f4(10) ss(2) show "map_of (mol_data s') ''cdensity'' = returned (events_of 4 (added s s') ! 6)"
    by (simp add: e)
  from f4(11) ss(2) show "map_of (mol_data s') ''total_number'' = returned (events_of 4 (added s s') ! 7)"
    by (simp add: e)
qed

theorem loop_carries_mol_data_and_results_witness:
  "loop ex_ext ex_prm ex_co ex_env [0..<5] ex_s =
     (Inr (), snd (loop ex_ext ex_prm ex_co ex_env [0..<5] ex_s)) \<and>
   ''t_freq'' \<notin> {''beta'', ''cdensity'', ''total_number''} \<and>
   map_of (mol_data (snd (loop ex_ext ex_prm ex_co ex_env [0..<5] ex_s))) ''t_freq'' = Some 230538 \<and>
   field_read (events_of 1 (trace (snd (loop ex_ext ex_prm ex_co ex_env [0..<5] ex_s))) ! 4) ''cdensity'' =
     returned (events_of 0 (trace (snd (loop ex_ext ex_prm ex_co ex_env [0..<5] ex_s))) ! 6)"
proof -
  have h: "loop ex_ext ex_prm ex_co ex_env [0..<5] ex_s =
     (Inr (), snd (loop ex_ext ex_prm ex_co ex_env [0..<5] ex_s))"
    using ex_loop_completes by (simp add: prod_eq_iff)
  have a: "added ex_s (snd (loop ex_ext ex_prm ex_co ex_env [0..<5] ex_s)) =
      trace (snd (loop ex_ext ex_prm ex_co ex_env [0..<5] ex_s))"
    by (simp add: added_def ex_s_def)
  have k: "''t_freq'' \<notin> {''beta'', ''cdensity'', ''total_number''}" by simp
  have m: "map_of (mol_data ex_s) ''t_freq'' = Some 230538" by (simp add: ex_s_def ex_md_def)
  note r = loop_carries_mol_data_and_results [OF h, unfolded a]
  from r k m have 1:
    "map_of (mol_data (snd (loop ex_ext ex_prm ex_co ex_env [0..<5] ex_s))) ''t_freq'' = Some 230538"
    by (elim conjE) (drule spec [of _ "''t_freq''"], simp)
  have "(0::nat) < 4" by simp
  with r have 2:
    "field_read (events_of (Suc 0) (trace (snd (loop ex_ext ex_prm ex_co ex_env [0..<5] ex_s))) ! 4) ''cdensity'' =
     returned (events_of 0 (trace (snd (loop ex_ext ex_prm ex_co ex_env [0..<5] ex_s))) ! 6)"
    by blast
  from h k 1 2 show ?thesis by simp
qed

theorem values_carried_between_iterations_counterexample:
  "mol_data ex_s = [(''t_freq'', 230538), (''eincoeff'', 7)] \<and>
   q_found_pyradex ex_s = [] \<and>
   fst (body ex_ext ex_prm ex_co ex_env 0 ex_s) = Inr () \<and>
   mol_data (snd (body ex_ext ex_prm ex_co ex_env 0 ex_s)) =
     [(''t_freq'', 230538), (''eincoeff'', 7), (''beta'', 2003), (''cdensity'', 261),
      (''total_number'', 2610)] \<and>
   q_found_pyradex (snd (body ex_ext ex_prm ex_co ex_env 0 ex_s)) = [6709] \<and>
   loop ex_ext ex_prm ex_co ex_env [0..<5] ex_s =
     loop ex_ext ex_prm ex_co ex_env [1..<5] (snd (body ex_ext ex_prm ex_co ex_env 0 ex_s)) \<and>
   trace (snd (body ex_ext ex_prm ex_co ex_env 1 (snd (body ex_ext ex_prm ex_co ex_env 0 ex_s)))) ! 14 =
     Event (In_loop 1)
       (beta_factor [(''t_freq'', 230538), (''eincoeff'', 7), (''beta'', 2003), (''cdensity'', 261),
          (''total_number'', 2610)] 2004)
       (Inr 2005)"
proof (intro conjI)
  show "mol_data ex_s = [(''t_freq'', 230538), (''eincoeff'', 7)]"
    by (simp add: ex_s_def ex_md_def)
  show "q_found_pyradex ex_s = []"
    by (simp add: ex_s_def)
  show c: "fst (body ex_ext ex_prm ex_co ex_env 0 ex_s) = Inr ()"
    by (rule ex_body_completes)
  show "mol_data (snd (body ex_ext ex_prm ex_co ex_env 0 ex_s)) =
     [(''t_freq'', 230538), (''eincoeff'', 7), (''beta'', 2003), (''cdensity'', 261),
      (''total_number'', 2610)]"
    by (simp add: ex_defs eval_simps cong: sum.case_cong_weak option.case_cong_weak)
  show "q_found_pyradex (snd (body ex_ext ex_prm ex_co ex_env 0 ex_s)) = [6709]"
    by (simp add: ex_defs eval_simps cong: sum.case_cong_weak option.case_cong_weak)
  have u: "[0..<5] = 0 # [1..<5]" by (simp add: upt_rec)
  show "loop ex_ext ex_prm ex_co ex_env [0..<5] ex_s =
     loop ex_ext ex_prm ex_co ex_env [1..<5] (snd (body ex_ext ex_prm ex_co ex_env 0 ex_s))"
    unfolding u loop_fst_snd c by (simp only: sum.case)
  show "trace (snd (body ex_ext ex_prm ex_co ex_env 1 (snd (body ex_ext ex_prm ex_co ex_env 0 ex_s)))) ! 14 =
     Event (In_loop 1)
       (beta_factor [(''t_freq'', 230538), (''eincoeff'', 7), (''beta'', 2003), (''cdensity'', 261),
          (''total_number'', 2610)] 2004)
       (Inr 2005)"
    by (simp add: ex_defs eval_simps cong: sum.case_cong_weak option.case_cong_weak)
qed



text \<open>
  C5. The loop reads the observation table only through its \<open>Time\<close> and \<open>T_B\<close> columns:
  two tables that agree on these two columns give the same run of the loop (the same
  result, the same production rates, the same calls), whatever their other columns; and
  the cell around the loop, which afterwards copies the \<open>log(Q)\<close> column, leaves the same
  production rates and the same calls too.
\<close>

theorem loop_reads_only_Time_and_T_B:
  assumes "co ''Time'' = co' ''Time''" and "co ''T_B'' = co' ''T_B''"
  shows "loop ext prm co en [0..<5] s = loop ext prm co' en [0..<5] s \<and>
     q_found_pyradex (snd (loop_cell ext prm co cm s)) =
       q_found_pyradex (snd (loop_cell ext prm co' cm s)) \<and>
     trace (snd (loop_cell ext prm co cm s)) = trace (snd (loop_cell ext prm co' cm s))"
proof -
  have "\<And>en. loop ext prm co en [0..<5] = loop ext prm co' en [0..<5]"
    by (rule ext) (rule loop_same_columns [OF assms])
  then show ?thesis
    by (simp add: loop_cell_results)
qed

theorem loop_reads_only_Time_and_T_B_witness:
  "ex_co ''Time'' = ex_co_other ''Time'' \<and> ex_co ''T_B'' = ex_co_other ''T_B'' \<and>
   ex_co ''log(Q)'' \<noteq> ex_co_other ''log(Q)'' \<and> ex_co ''Q'' \<noteq> ex_co_other ''Q'' \<and>
   loop ex_ext ex_prm ex_co ex_env [0..<5] ex_s = loop ex_ext ex_prm ex_co_other ex_env [0..<5] ex_s \<and>
   q_found_pyradex (snd (loop_cell ex_ext ex_prm ex_co 4099 ex_s)) =
     q_found_pyradex (snd (loop_cell ex_ext ex_prm ex_co_other 4099 ex_s))"
proof -
  have t: "ex_co ''Time'' = ex_co_other ''Time''" and b: "ex_co ''T_B'' = ex_co_other ''T_B''"
    by (simp_all add: ex_co_def ex_co_other_def)
  have "ex_co ''log(Q)'' \<noteq> ex_co_other ''log(Q)''" and "ex_co ''Q'' \<noteq> ex_co_other ''Q''"
    by (simp_all add: ex_co_def ex_co_other_def)
  with t b loop_reads_only_Time_and_T_B [OF t b, of ex_ext ex_prm ex_env ex_s 4099]
  show ?thesis by simp
qed





end
